theory Spec2Isabelle
  imports Complex_Main "HOL-Library.Multiset"
begin

section \<open>Data model of \<open>project_cnc.py\<close>\<close>

text \<open>
  The program turns an image into turtle motions in four steps, all methods of the class
  \<open>CNCMachine\<close>: \<open>edge_detection\<close>, \<open>extract_contours\<close>, \<open>scale_coordinates\<close> and
  \<open>draw_toolpath\<close>, chained by \<open>generate_from_image\<close>.

  Numbers. Pixel coordinates and image dimensions are integers (\<open>int\<close>). The scaled
  coordinates are Python/numpy floats in the source; they are modelled as \<open>real\<close>, so the
  arithmetic of the model is the exact arithmetic of the formulas the source writes, with
  Python's \<open>ZeroDivisionError\<close> written out as a branch.
\<close>

type_synonym point = "int \<times> int"
type_synonym contour = "point list"
type_synonym scaled_point = "real \<times> real"
type_synonym scaled_contour = "scaled_point list"

text \<open>
  The exceptions the methods can raise. \<open>ValueError msg\<close> is the \<open>raise ValueError(msg)\<close> of
  \<open>edge_detection\<close>; \<open>UnpackError n\<close> is the \<open>ValueError\<close> Python raises for
  \<open>h, w = img_shape[:2]\<close> when the slice has only \<open>n < 2\<close> entries;
  \<open>ZeroDivisionError\<close> is raised by \<open>canvas_size / max(h, w)\<close>; \<open>IndexError\<close> by
  \<open>contour[0]\<close> on an empty contour.
\<close>

datatype py_error =
    ValueError string
  | UnpackError nat
  | ZeroDivisionError
  | IndexError

section \<open>\<open>scale_coordinates\<close>\<close>

text \<open>
  The inner loop \<open>for point in contour\<close> (lines 70-75): each point \<open>(x, y)\<close> is appended to
  \<open>scaled\<close> as \<open>((x - w/2) * scale, (h/2 - y) * scale)\<close>.
\<close>

fun scale_points :: "int \<Rightarrow> int \<Rightarrow> real \<Rightarrow> contour \<Rightarrow> scaled_contour \<Rightarrow> scaled_contour" where
  "scale_points h w scale [] scaled = scaled"
| "scale_points h w scale ((x, y) # points) scaled =
     (let tx = (real_of_int x - real_of_int w / 2) * scale;
          ty = (real_of_int h / 2 - real_of_int y) * scale
      in scale_points h w scale points (scaled @ [(tx, ty)]))"

text \<open>The outer loop \<open>for contour in contours\<close> (lines 68-76).\<close>

fun scale_contours ::
  "int \<Rightarrow> int \<Rightarrow> real \<Rightarrow> contour list \<Rightarrow> scaled_contour list \<Rightarrow> scaled_contour list" where
  "scale_contours h w scale [] scaled_contours = scaled_contours"
| "scale_contours h w scale (contour # contours) scaled_contours =
     scale_contours h w scale contours (scaled_contours @ [scale_points h w scale contour []])"

text \<open>
  \<open>scale_coordinates(contours, img_shape, canvas_size)\<close> (lines 62-78). \<open>img_shape\<close> is a
  tuple of integers; \<open>h, w = img_shape[:2]\<close> needs two entries, and the division raises
  when \<open>max(h, w)\<close> is zero.
\<close>

fun scale_coordinates ::
  "contour list \<Rightarrow> int list \<Rightarrow> real \<Rightarrow> py_error + scaled_contour list" where
  "scale_coordinates contours [] canvas_size = Inl (UnpackError 0)"
| "scale_coordinates contours [h] canvas_size = Inl (UnpackError 1)"
| "scale_coordinates contours (h # w # rest) canvas_size =
     (if max h w = 0 then Inl ZeroDivisionError
      else let scale = canvas_size / real_of_int (max h w)
           in Inr (scale_contours h w scale contours []))"

section \<open>The machine state and the external library\<close>

text \<open>
  A \<open>CNCMachine\<close> owns two turtles. \<open>self.tool\<close> is the cutting tool: the model records the
  commands sent to it, in order (\<open>penup()\<close>, \<open>pendown()\<close>, \<open>goto(x, y)\<close>, \<open>color(name)\<close>).
  \<open>self.status\<close> shows one line of text: \<open>update_status\<close> clears it and writes the new
  message, so the text on screen is the last entry of \<open>status_log\<close>. \<open>printed\<close> is what
  \<open>print\<close> wrote.
\<close>

datatype tool_cmd = PenUp | PenDown | Goto real real | Color string

text \<open>
  The status texts of the source, one constructor per message:
  \<^item> \<open>Loading\<close>: "Loading and processing image..."
  \<^item> \<open>Extracting\<close>: "Extracting design contours..."
  \<^item> \<open>Running\<close>: "CNC Machine Running - Drawing Design..."
  \<^item> \<open>Progress k n\<close>: "CNC Machine Running - Progress: k/n paths"
  \<^item> \<open>Complete d\<close>: "Design Complete! Drew d toolpaths"
  \<^item> \<open>Finished\<close>: "CNC Design Complete - Click to close" (after a check mark)
  \<^item> \<open>ErrorMsg e\<close>: "Error: " followed by \<open>str(e)\<close>
\<close>

datatype status_msg =
    Loading
  | Extracting
  | Running
  | Progress nat nat
  | Complete nat
  | Finished
  | ErrorMsg py_error

record cnc =
  tool_log :: "tool_cmd list"
  status_log :: "status_msg list"
  printed :: "py_error list"

text \<open>
  The machine as \<open>__init__\<close> leaves it: the tool has been coloured red and has not moved
  (shape, size and speed of the cursor are not modelled), nothing is displayed or printed.
\<close>

definition cnc_init :: cnc where
  "cnc_init = \<lparr>tool_log = [Color ''red''], status_log = [], printed = []\<rparr>"

definition update_status :: "status_msg \<Rightarrow> cnc \<Rightarrow> cnc" where
  "update_status msg st = st\<lparr>status_log := status_log st @ [msg]\<rparr>"

definition tool :: "tool_cmd \<Rightarrow> cnc \<Rightarrow> cnc" where
  "tool c st = st\<lparr>tool_log := tool_log st @ [c]\<rparr>"

definition print_error :: "py_error \<Rightarrow> cnc \<Rightarrow> cnc" where
  "print_error e st = st\<lparr>printed := printed st @ [e]\<rparr>"

text \<open>
  OpenCV is not part of the repository. Its functions are parameters of the model, as total
  functions: \<open>imread\<close> returns \<open>None\<close> for a file it cannot load, \<open>shape\<close> is \<open>img.shape\<close>,
  and a single-channel image (grey, blurred, edge map) is a grid of pixel values.
\<close>

type_synonym gray = "nat list list"

record 'img cv2 =
  imread :: "string \<Rightarrow> 'img option"
  shape :: "'img \<Rightarrow> int list"
  cvtColor :: "'img \<Rightarrow> gray"
  GaussianBlur :: "gray \<Rightarrow> gray"
  Canny :: "gray \<Rightarrow> int \<Rightarrow> int \<Rightarrow> gray"
  findContours :: "gray \<Rightarrow> contour list"

section \<open>\<open>edge_detection\<close>\<close>

text \<open>
  Lines 30-48. The status is updated before the image is loaded, so the state returned
  with the exception already shows \<open>Loading\<close>.
\<close>

definition edge_detection ::
  "'img cv2 \<Rightarrow> string \<Rightarrow> int \<Rightarrow> int \<Rightarrow> cnc \<Rightarrow> (py_error + gray \<times> int list) \<times> cnc" where
  "edge_detection cv img_path threshold1 threshold2 st =
     (let st1 = update_status Loading st
      in case imread cv img_path of
           None \<Rightarrow> (Inl (ValueError ''Could not load image''), st1)
         | Some img \<Rightarrow>
             (let gray = cvtColor cv img;
                  blurred = GaussianBlur cv gray;
                  edges = Canny cv blurred threshold1 threshold2
              in (Inr (edges, shape cv img), st1)))"

section \<open>\<open>extract_contours\<close>\<close>

text \<open>
  Modelled from the spec: \<open>cv2.contourArea\<close> is a function of OpenCV, absent from the
  repository. The spec gives it as the absolute value of the signed polygon-area formula
  on the pixel coordinates: half of the sum, over the closed sequence of points, of
  \<open>x\<^sub>p\<^sub>r\<^sub>e\<^sub>v * y - x * y\<^sub>p\<^sub>r\<^sub>e\<^sub>v\<close>, the predecessor of the first point being the last.
\<close>

fun signed_area2 :: "point \<Rightarrow> contour \<Rightarrow> int" where
  "signed_area2 prev [] = 0"
| "signed_area2 (xp, yp) ((x, y) # ps) = xp * y - x * yp + signed_area2 (x, y) ps"

definition contourArea :: "contour \<Rightarrow> real" where
  "contourArea c = (if c = [] then 0 else \<bar>real_of_int (signed_area2 (last c) c)\<bar> / 2)"

text \<open>
  Python's \<open>sorted(xs, key=key, reverse=True)\<close>: a stable sort into descending order of
  the key. CPython obtains it by reversing the list, sorting it stably into ascending
  order and reversing the result; \<open>sort_key\<close> is the stable insertion sort of the list
  library.
\<close>

definition sorted_reverse :: "('a \<Rightarrow> real) \<Rightarrow> 'a list \<Rightarrow> 'a list" where
  "sorted_reverse key xs = rev (sort_key key (rev xs))"

text \<open>Lines 50-60.\<close>

definition extract_contours :: "'img cv2 \<Rightarrow> gray \<Rightarrow> cnc \<Rightarrow> contour list \<times> cnc" where
  "extract_contours cv edges st =
     (let st1 = update_status Extracting st;
          contours = findContours cv edges
      in (sorted_reverse contourArea contours, st1))"

section \<open>The contour tracer\<close>

text \<open>
  Modelled from the spec: \<open>cv2.findContours\<close> is a function of OpenCV, absent from the
  repository. The spec gives it as boundary tracing over the binary mask, treating the
  boundary of each maximal connected edge region as one contour, all contours returned as
  a flat list, an empty edge map yielding the empty sequence. The model scans the mask row
  by row; at an edge pixel not yet reached it grows the connected region from that pixel
  (eight neighbours, a work list) and returns the region's boundary pixels, in the order
  the trace reached them, as one contour.

  A pixel is read through \<open>pixel\<close>, which tests the coordinates first: outside the mask
  is background. The region-growing loop runs until its work list is empty, so it is
  defined as a partial function: \<open>None\<close> stands for a trace that does not return.
\<close>

definition pixel :: "gray \<Rightarrow> point \<Rightarrow> nat" where
  "pixel edges p =
     (case p of (x, y) \<Rightarrow>
        if 0 \<le> y \<and> nat y < length edges \<and> 0 \<le> x \<and> nat x < length (edges ! nat y)
        then edges ! nat y ! nat x else 0)"

definition neighbours :: "point \<Rightarrow> point list" where
  "neighbours p =
     (case p of (x, y) \<Rightarrow>
        [(x + 1, y), (x + 1, y + 1), (x, y + 1), (x - 1, y + 1),
         (x - 1, y), (x - 1, y - 1), (x, y - 1), (x + 1, y - 1)])"

text \<open>The pixel coordinates of the mask, row by row.\<close>

definition coords :: "gray \<Rightarrow> point list" where
  "coords edges =
     concat (map (\<lambda>y. map (\<lambda>x. (int x, int y)) [0 ..< length (edges ! y)]) [0 ..< length edges])"

text \<open>
  The work-list loop: \<open>seen\<close> are the edge pixels reached so far, \<open>stack\<close> the pixels
  still to look at, \<open>region\<close> the pixels of the region under way.
\<close>

partial_function (option) grow ::
  "gray \<Rightarrow> point list \<Rightarrow> point list \<Rightarrow> point list \<Rightarrow> (point list \<times> point list) option" where
  [code]: "grow edges seen stack region =
     (case stack of
        [] \<Rightarrow> Some (seen, region)
      | p # rest \<Rightarrow>
          if pixel edges p = 0 \<or> p \<in> set seen then grow edges seen rest region
          else grow edges (p # seen) (neighbours p @ rest) (region @ [p]))"

text \<open>The pixels of a region that touch the background.\<close>

definition boundary :: "gray \<Rightarrow> point list \<Rightarrow> contour" where
  "boundary edges region = filter (\<lambda>p. list_ex (\<lambda>q. pixel edges q = 0) (neighbours p)) region"

fun scan :: "gray \<Rightarrow> point list \<Rightarrow> point list \<Rightarrow> contour list option" where
  "scan edges [] seen = Some []"
| "scan edges (p # ps) seen =
     (if pixel edges p = 0 \<or> p \<in> set seen then scan edges ps seen
      else (case grow edges seen [p] [] of
              None \<Rightarrow> None
            | Some (seen', region) \<Rightarrow>
                (case scan edges ps seen' of
                   None \<Rightarrow> None
                 | Some contours \<Rightarrow> Some (boundary edges region # contours))))"

definition trace_contours :: "gray \<Rightarrow> contour list option" where
  "trace_contours edges = scan edges (coords edges) []"

text \<open>The tracer as the value \<open>findContours\<close> returns.\<close>

definition findContours_spec :: "gray \<Rightarrow> contour list" where
  "findContours_spec edges = (case trace_contours edges of None \<Rightarrow> [] | Some contours \<Rightarrow> contours)"

text \<open>A library whose \<open>findContours\<close> is this tracer.\<close>

definition with_tracer :: "'img cv2 \<Rightarrow> 'img cv2" where
  "with_tracer cv = cv\<lparr>findContours := findContours_spec\<rparr>"

section \<open>\<open>draw_toolpath\<close>\<close>

text \<open>The loop \<open>for x, y in contour[1:]: self.tool.goto(x, y)\<close> (lines 101-102).\<close>

fun draw_points :: "scaled_contour \<Rightarrow> cnc \<Rightarrow> cnc" where
  "draw_points [] st = st"
| "draw_points ((x, y) # ps) st = draw_points ps (tool (Goto x y) st)"

text \<open>
  The loop \<open>for i, contour in enumerate(contours)\<close> (lines 87-111), with its variables
  \<open>i\<close> and \<open>drawn\<close>. \<open>self.tool.penup()\<close> runs before \<open>contour[0]\<close> is read, so an empty
  contour that is not skipped raises \<open>IndexError\<close> with the pen already lifted.
\<close>

fun draw_loop ::
  "int \<Rightarrow> nat \<Rightarrow> nat \<Rightarrow> nat \<Rightarrow> scaled_contour list \<Rightarrow> cnc \<Rightarrow> (py_error + nat) \<times> cnc" where
  "draw_loop min_points total_contours i drawn [] st = (Inr drawn, st)"
| "draw_loop min_points total_contours i drawn (contour # rest) st =
     (if int (length contour) < min_points
      then draw_loop min_points total_contours (Suc i) drawn rest st
      else
        (let st1 = tool PenUp st
         in case contour of
              [] \<Rightarrow> (Inl IndexError, st1)
            | (x0, y0) # tail \<Rightarrow>
                (let st2 = tool (Goto x0 y0) st1;
                     st3 = tool PenDown st2;
                     st4 = tool (Color ''blue'') st3;
                     st5 = draw_points tail st4;
                     st6 = tool (Goto x0 y0) st5;
                     drawn' = drawn + 1;
                     st7 = (if drawn' mod 5 = 0
                            then update_status (Progress (i + 1) total_contours) st6
                            else st6)
                 in draw_loop min_points total_contours (Suc i) drawn' rest st7)))"

text \<open>Lines 80-118. The method returns \<open>None\<close>: the result is \<open>()\<close> or the exception.\<close>

definition draw_toolpath ::
  "scaled_contour list \<Rightarrow> int \<Rightarrow> cnc \<Rightarrow> (py_error + unit) \<times> cnc" where
  "draw_toolpath contours min_points st =
     (let st1 = update_status Running st;
          total_contours = length contours
      in case draw_loop min_points total_contours 0 0 contours st1 of
           (Inl e, st2) \<Rightarrow> (Inl e, st2)
         | (Inr drawn, st2) \<Rightarrow>
             (let st3 = tool PenUp st2;
                  st4 = tool (Goto 0 0) st3;
                  st5 = tool (Color ''red'') st4
              in (Inr (), update_status (Complete drawn) st5)))"

section \<open>\<open>generate_from_image\<close>\<close>

text \<open>The handler \<open>except Exception as e\<close> (lines 137-139): it returns normally.\<close>

definition on_exception :: "py_error \<Rightarrow> cnc \<Rightarrow> (py_error + unit) \<times> cnc" where
  "on_exception e st = (Inr (), print_error e (update_status (ErrorMsg e) st))"

text \<open>
  Lines 120-139. \<open>edge_detection\<close> and \<open>draw_toolpath\<close> are called with their default
  arguments (thresholds 50 and 150, \<open>min_points = 10\<close>).
\<close>

definition generate_from_image ::
  "'img cv2 \<Rightarrow> string \<Rightarrow> real \<Rightarrow> cnc \<Rightarrow> (py_error + unit) \<times> cnc" where
  "generate_from_image cv img_path canvas_size st =
     (case edge_detection cv img_path 50 150 st of
        (Inl e, st1) \<Rightarrow> on_exception e st1
      | (Inr (edges, img_shape), st1) \<Rightarrow>
          (case extract_contours cv edges st1 of
             (contours, st2) \<Rightarrow>
               (case scale_coordinates contours img_shape canvas_size of
                  Inl e \<Rightarrow> on_exception e st2
                | Inr scaled_contours \<Rightarrow>
                    (case draw_toolpath scaled_contours 10 st2 of
                       (Inl e, st3) \<Rightarrow> on_exception e st3
                     | (Inr u, st3) \<Rightarrow> (Inr (), update_status Finished st3)))))"

section \<open>Observing what a call did\<close>

text \<open>The tool commands and the status messages a call added to the state.\<close>

definition issued :: "cnc \<Rightarrow> cnc \<Rightarrow> tool_cmd list" where
  "issued st st' = drop (length (tool_log st)) (tool_log st')"

definition reported :: "cnc \<Rightarrow> cnc \<Rightarrow> status_msg list" where
  "reported st st' = drop (length (status_log st)) (status_log st')"

text \<open>
  The pen semantics of the \<open>turtle\<close> module, to read a command sequence as the polylines
  it draws: \<open>goto\<close> moves the turtle and draws the segment when the pen is down. The
  arguments are the pen state, the position, and the points of the polyline under way
  (from the point where the pen was lowered). A polyline counts once it has a segment.
\<close>

fun pen_paths ::
  "bool \<Rightarrow> scaled_point \<Rightarrow> scaled_contour \<Rightarrow> tool_cmd list \<Rightarrow> scaled_contour list" where
  "pen_paths down pos cur [] = (if down \<and> 2 \<le> length cur then [cur] else [])"
| "pen_paths down pos cur (PenUp # cs) =
     (if down \<and> 2 \<le> length cur then cur # pen_paths False pos [] cs
      else pen_paths False pos [] cs)"
| "pen_paths down pos cur (PenDown # cs) =
     (if down then pen_paths True pos cur cs else pen_paths True pos [pos] cs)"
| "pen_paths down pos cur (Goto x y # cs) =
     pen_paths down (x, y) (if down then cur @ [(x, y)] else cur) cs"
| "pen_paths down pos cur (Color c # cs) = pen_paths down pos cur cs"

text \<open>
  The polylines a command sequence draws, run by a turtle at \<open>pos\<close> with pen state
  \<open>down\<close> that has drawn nothing yet.
\<close>

definition drawn_paths :: "bool \<Rightarrow> scaled_point \<Rightarrow> tool_cmd list \<Rightarrow> scaled_contour list" where
  "drawn_paths down pos cmds = pen_paths down pos [pos] cmds"

text \<open>The totals \<open>n\<close> shown by the progress messages \<open>k/n\<close> of a status sequence.\<close>

fun progress_totals :: "status_msg list \<Rightarrow> nat list" where
  "progress_totals [] = []"
| "progress_totals (Progress k n # ms) = n # progress_totals ms"
| "progress_totals (m # ms) = progress_totals ms"

text \<open>Whether an edge map has no edge pixel.\<close>

definition all_zero :: "gray \<Rightarrow> bool" where
  "all_zero edges = list_all (list_all (\<lambda>v. v = 0)) edges"

text \<open>The commands one iteration of the drawing loop sends for a contour it keeps.\<close>

fun contour_cmds :: "scaled_contour \<Rightarrow> tool_cmd list" where
  "contour_cmds [] = [PenUp]"
| "contour_cmds ((x0, y0) # tail) =
     [PenUp, Goto x0 y0, PenDown, Color ''blue''] @ map (\<lambda>(x, y). Goto x y) tail @ [Goto x0 y0]"

text \<open>The contours the drawing loop does not skip.\<close>

abbreviation (input) kept :: "int \<Rightarrow> scaled_contour list \<Rightarrow> scaled_contour list" where
  "kept mp cs \<equiv> filter (\<lambda>c. mp \<le> int (length c)) cs"

section \<open>Stand-ins for OpenCV\<close>

text \<open>
  Two instances of the library record, to run the model on concrete inputs. \<open>stub_cv\<close>
  loads every path as one image of the given shape, whose edge map is \<open>edges\<close> and whose
  contours are \<open>cs\<close> (none when the edge map has no edge pixel). \<open>unreadable_cv\<close> can load
  no file.
\<close>

definition stub_cv :: "int list \<Rightarrow> gray \<Rightarrow> contour list \<Rightarrow> unit cv2" where
  "stub_cv shp edges cs =
     \<lparr>imread = (\<lambda>p. Some ()),
      shape = (\<lambda>img. shp),
      cvtColor = (\<lambda>img. []),
      GaussianBlur = (\<lambda>g. g),
      Canny = (\<lambda>g t1 t2. edges),
      findContours = (\<lambda>e. if all_zero e then [] else cs)\<rparr>"

definition unreadable_cv :: "unit cv2" where
  "unreadable_cv = (stub_cv [] [] []) \<lparr>imread := (\<lambda>p. None)\<rparr>"

section \<open>Properties of \<open>scale_coordinates\<close>\<close>

lemma scale_points_map:
  "scale_points h w s ps acc =
     acc @ map (\<lambda>(x, y). ((real_of_int x - real_of_int w / 2) * s,
                            (real_of_int h / 2 - real_of_int y) * s)) ps"
  by (induction ps arbitrary: acc) (auto simp: Let_def)

lemma scale_contours_map:
  "scale_contours h w s cs acc = acc @ map (\<lambda>c. scale_points h w s c []) cs"
  by (induction cs arbitrary: acc) auto

lemma scale_coordinates_eq:
  "max h w \<noteq> 0 \<Longrightarrow>
   scale_coordinates contours (h # w # rest) canvas_size =
     Inr (map (map (\<lambda>(x, y).
        ((real_of_int x - real_of_int w / 2) * (canvas_size / real_of_int (max h w)),
         (real_of_int h / 2 - real_of_int y) * (canvas_size / real_of_int (max h w))))) contours)"
  by (simp add: scale_contours_map scale_points_map)

text \<open>
  Claim C1. With \<open>scale = canvas_size / max(h, w)\<close>, \<open>scale_coordinates\<close> maps the point
  \<open>(x, y)\<close> at position \<open>j\<close> of contour \<open>i\<close> to \<open>((x - w/2) * scale, (h/2 - y) * scale)\<close> at the
  same position of its result. The image centre \<open>(w/2, h/2)\<close>, a pixel when both dimensions
  are even, goes to \<open>(0, 0)\<close>, and the corner \<open>(0, 0)\<close> to \<open>(-w/2 * scale, h/2 * scale)\<close>. The
  scale exists when \<open>max(h, w)\<close> is not zero.
\<close>

theorem scale_coordinates_formula:
  assumes "max h w \<noteq> 0"
  shows "(\<exists>r. scale_coordinates contours (h # w # rest) canvas_size = Inr r \<and>
            (\<forall>i < length contours. \<forall>j < length (contours ! i).
               r ! i ! j =
                 ((real_of_int (fst (contours ! i ! j)) - real_of_int w / 2)
                    * (canvas_size / real_of_int (max h w)),
                  (real_of_int h / 2 - real_of_int (snd (contours ! i ! j)))
                    * (canvas_size / real_of_int (max h w)))))
       \<and> (w = 2 * cx \<and> h = 2 * cy \<longrightarrow>
            scale_coordinates [[(cx, cy)]] (h # w # rest) canvas_size = Inr [[(0, 0)]])
       \<and> scale_coordinates [[(0, 0)]] (h # w # rest) canvas_size =
            Inr [[(- real_of_int w / 2 * (canvas_size / real_of_int (max h w)),
                   real_of_int h / 2 * (canvas_size / real_of_int (max h w)))]]"
proof (intro conjI impI)
  let ?s = "canvas_size / real_of_int (max h w)"
  let ?f = "\<lambda>(x, y). ((real_of_int x - real_of_int w / 2) * ?s,
                         (real_of_int h / 2 - real_of_int y) * ?s)"
  have eq: "\<And>cs. scale_coordinates cs (h # w # rest) canvas_size = Inr (map (map ?f) cs)"
    using assms by (rule scale_coordinates_eq)
  show "\<exists>r. scale_coordinates contours (h # w # rest) canvas_size = Inr r \<and>
            (\<forall>i < length contours. \<forall>j < length (contours ! i).
               r ! i ! j =
                 ((real_of_int (fst (contours ! i ! j)) - real_of_int w / 2) * ?s,
                  (real_of_int h / 2 - real_of_int (snd (contours ! i ! j))) * ?s))"
    unfolding eq by (simp add: split_beta)
  show "scale_coordinates [[(0, 0)]] (h # w # rest) canvas_size =
          Inr [[(- real_of_int w / 2 * ?s, real_of_int h / 2 * ?s)]]"
    unfolding eq by simp
  assume c: "w = 2 * cx \<and> h = 2 * cy"
  show "scale_coordinates [[(cx, cy)]] (h # w # rest) canvas_size = Inr [[(0, 0)]]"
    unfolding eq using c by simp
qed

theorem scale_coordinates_formula_witness:
  "scale_coordinates [[(30, 40), (200, 0)], [(100, 50)]] [100, 200, 3] 600 =
     Inr [[(-210, 30), (300, 150)], [(0, 0)]]
   \<and> scale_coordinates [[(0, 0)]] [100, 200, 3] 600 = Inr [[(-300, 150)]]"
  using scale_coordinates_formula
    [of 100 200 "[[(30, 40), (200, 0)], [(100, 50)]]" "[3]" 600 100 50]
  by (simp add: Let_def)

text \<open>
  Claim C4. \<open>scale_coordinates\<close> returns one scaled contour for each contour, in the same
  order, and the scaled contour at position \<open>i\<close> has as many points as contour \<open>i\<close>.
\<close>

theorem scale_coordinates_counts:
  assumes "max h w \<noteq> 0"
  shows "\<exists>r. scale_coordinates contours (h # w # rest) canvas_size = Inr r \<and>
            length r = length contours \<and>
            (\<forall>i < length contours. length (r ! i) = length (contours ! i)) \<and>
            map length r = map length contours"
  using assms by (simp add: scale_coordinates_eq del: scale_coordinates.simps)

theorem scale_coordinates_counts_witness:
  "\<exists>r. scale_coordinates [[(1, 2), (3, 4), (5, 6)], [], [(7, 8)]] [4, 8] 600 = Inr r \<and>
        map length r = [3, 0, 1]"
  using scale_coordinates_counts [of 4 8 "[[(1, 2), (3, 4), (5, 6)], [], [(7, 8)]]" "[]" 600]
  by simp

text \<open>
  Claim C9. \<open>scale_coordinates\<close> divides by \<open>max(h, w)\<close> with no test before the division:
  it raises \<open>ZeroDivisionError\<close> exactly when \<open>max(h, w)\<close> is zero. For a shape with
  \<open>max(h, w) > 0\<close> it returns a result, whatever the contours and the canvas size, and does
  not raise \<open>ZeroDivisionError\<close>.
\<close>

theorem scale_coordinates_total:
  "(0 < max h w \<longrightarrow>
      (\<exists>r. scale_coordinates contours (h # w # rest) canvas_size = Inr r) \<and>
      scale_coordinates contours (h # w # rest) canvas_size \<noteq> Inl ZeroDivisionError)
   \<and> (scale_coordinates contours (h # w # rest) canvas_size = Inl ZeroDivisionError
        \<longleftrightarrow> max h w = 0)"
  by simp

theorem scale_coordinates_total_witness:
  "(0::int) < max 480 640
   \<and> (\<exists>r. scale_coordinates [[(0, 0), (639, 479)]] [480, 640, 3] 600 = Inr r)
   \<and> scale_coordinates [[(0, 0), (639, 479)]] [480, 640, 3] 600 \<noteq> Inl ZeroDivisionError
   \<and> scale_coordinates [[(0, 0), (639, 479)]] [0, 0, 3] 600 = Inl ZeroDivisionError"
  using scale_coordinates_total [of 480 640 "[[(0, 0), (639, 479)]]" "[3]" 600]
    scale_coordinates_total [of 0 0 "[[(0, 0), (639, 479)]]" "[3]" 600]
  by simp

section \<open>Properties of \<open>extract_contours\<close>\<close>

lemma sorted_reverse_descending:
  "sorted_wrt (\<lambda>a b. key b \<le> key a) (sorted_reverse key xs)"
  unfolding sorted_reverse_def sorted_wrt_rev
  using sorted_sort_key [of key "rev xs"] by (simp add: sorted_map)

lemma sorted_reverse_stable:
  "filter (\<lambda>x. key x = k) (sorted_reverse key xs) = filter (\<lambda>x. key x = k) xs"
  by (simp add: sorted_reverse_def sort_key_stable flip: rev_filter)

lemma mset_sorted_reverse: "mset (sorted_reverse key xs) = mset xs"
  by (simp add: sorted_reverse_def)

text \<open>
  Claim C2. The contours \<open>extract_contours\<close> returns are in descending order of
  \<open>contourArea\<close>: each one has at most the area of the one before it. Contours of equal
  area stay in the order in which \<open>findContours\<close> found them, and the result holds the
  contours found, each as often as it was found.
\<close>

theorem extract_contours_sorted:
  "(\<forall>i. Suc i < length (fst (extract_contours cv edges st)) \<longrightarrow>
        contourArea (fst (extract_contours cv edges st) ! Suc i)
          \<le> contourArea (fst (extract_contours cv edges st) ! i))
   \<and> (\<forall>a. filter (\<lambda>c. contourArea c = a) (fst (extract_contours cv edges st)) =
            filter (\<lambda>c. contourArea c = a) (findContours cv edges))
   \<and> mset (fst (extract_contours cv edges st)) = mset (findContours cv edges)"
proof -
  let ?r = "sorted_reverse contourArea (findContours cv edges)"
  have r: "fst (extract_contours cv edges st) = ?r"
    by (simp add: extract_contours_def)
  have "sorted_wrt (\<lambda>a b. contourArea b \<le> contourArea a) ?r"
    by (rule sorted_reverse_descending)
  then have "\<forall>i. Suc i < length ?r \<longrightarrow> contourArea (?r ! Suc i) \<le> contourArea (?r ! i)"
    by (simp add: sorted_wrt_iff_nth_less)
  then show ?thesis
    unfolding r by (simp add: sorted_reverse_stable mset_sorted_reverse)
qed

theorem extract_contours_sorted_witness:
  "fst (extract_contours
         (stub_cv [100, 100, 3] [[255]]
            [[(0, 0), (4, 0), (0, 4)],
             [(0, 0), (10, 0), (10, 10), (0, 10)],
             [(10, 10), (14, 10), (10, 14)]]) [[255]] cnc_init)
     = [[(0, 0), (10, 0), (10, 10), (0, 10)],
        [(0, 0), (4, 0), (0, 4)],
        [(10, 10), (14, 10), (10, 14)]]
   \<and> contourArea [(0, 0), (4, 0), (0, 4)] \<le> contourArea [(0, 0), (10, 0), (10, 10), (0, 10)]
   \<and> contourArea [(10, 10), (14, 10), (10, 14)] = contourArea [(0, 0), (4, 0), (0, 4)]"
  using extract_contours_sorted
    [of "stub_cv [100, 100, 3] [[255]]
            [[(0, 0), (4, 0), (0, 4)],
             [(0, 0), (10, 0), (10, 10), (0, 10)],
             [(10, 10), (14, 10), (10, 14)]]" "[[255]]" cnc_init]
  by (simp add: extract_contours_def stub_cv_def all_zero_def sorted_reverse_def contourArea_def)

section \<open>Properties of \<open>draw_toolpath\<close>\<close>

lemma tool_log_simps:
  "tool_log (tool c st) = tool_log st @ [c]"
  "tool_log (update_status m st) = tool_log st"
  "tool_log (print_error e st) = tool_log st"
  by (simp_all add: tool_def update_status_def print_error_def)

lemma status_log_simps:
  "status_log (tool c st) = status_log st"
  "status_log (update_status m st) = status_log st @ [m]"
  "status_log (print_error e st) = status_log st"
  by (simp_all add: tool_def update_status_def print_error_def)

lemma printed_simps:
  "printed (tool c st) = printed st"
  "printed (update_status m st) = printed st"
  "printed (print_error e st) = printed st @ [e]"
  by (simp_all add: tool_def update_status_def print_error_def)

lemma draw_points_tool_log:
  "tool_log (draw_points ps st) = tool_log st @ map (\<lambda>(x, y). Goto x y) ps"
  by (induction ps arbitrary: st) (auto simp: tool_log_simps)

lemma draw_points_status_log:
  "status_log (draw_points ps st) = status_log st"
  by (induction ps arbitrary: st) (auto simp: status_log_simps)

lemma draw_points_printed:
  "printed (draw_points ps st) = printed st"
  by (induction ps arbitrary: st) (auto simp: printed_simps)

lemmas draw_points_logs = draw_points_tool_log draw_points_status_log draw_points_printed

lemma progress_totals_append:
  "progress_totals (a @ b) = progress_totals a @ progress_totals b"
  by (induction a rule: progress_totals.induct) simp_all

lemma draw_loop_fst:
  "\<forall>c \<in> set cs. c \<noteq> [] \<or> 0 < mp \<Longrightarrow>
   fst (draw_loop mp n i d cs st) = Inr (d + length (kept mp cs))"
proof (induction cs arbitrary: i d st)
  case Nil
  show ?case by simp
next
  case (Cons c cs)
  then show ?case by (cases c) (auto simp: Let_def)
qed

lemma draw_loop_tool_log:
  "\<forall>c \<in> set cs. c \<noteq> [] \<or> 0 < mp \<Longrightarrow>
   tool_log (snd (draw_loop mp n i d cs st)) =
     tool_log st @ concat (map contour_cmds (kept mp cs))"
proof (induction cs arbitrary: i d st)
  case Nil
  show ?case by simp
next
  case (Cons c cs)
  then show ?case
    by (cases c) (auto simp: Let_def tool_log_simps draw_points_logs)
qed

lemma draw_loop_printed:
  "printed (snd (draw_loop mp n i d cs st)) = printed st"
proof (induction cs arbitrary: i d st)
  case Nil
  show ?case by simp
next
  case (Cons c cs)
  then show ?case
    by (cases c) (auto simp: Let_def printed_simps draw_points_logs)
qed

lemma div5_step:
  fixes a d :: nat
  assumes "Suc d \<le> a"
  shows "Suc d mod 5 = 0 \<Longrightarrow> a div 5 - d div 5 = Suc (a div 5 - Suc d div 5)"
    and "Suc d mod 5 \<noteq> 0 \<Longrightarrow> a div 5 - d div 5 = a div 5 - Suc d div 5"
proof -
  have le: "Suc d div 5 \<le> a div 5"
    using assms by (rule div_le_mono)
  have aux: "\<And>x y z :: nat. z = Suc y \<Longrightarrow> z \<le> x \<Longrightarrow> x - y = Suc (x - z)"
    by simp
  show "a div 5 - d div 5 = Suc (a div 5 - Suc d div 5)" if "Suc d mod 5 = 0"
  proof (rule aux [OF _ le])
    show "Suc d div 5 = Suc (d div 5)" using that by (simp add: div_Suc)
  qed
  show "a div 5 - d div 5 = a div 5 - Suc d div 5" if "Suc d mod 5 \<noteq> 0"
  proof -
    have "Suc d div 5 = d div 5" using that by (simp add: div_Suc)
    then show ?thesis by simp
  qed
qed

lemma draw_loop_status:
  "\<forall>c \<in> set cs. c \<noteq> [] \<or> 0 < mp \<Longrightarrow>
   \<exists>ps. status_log (snd (draw_loop mp n i d cs st)) = status_log st @ ps \<and>
        progress_totals ps = replicate ((d + length (kept mp cs)) div 5 - d div 5) n \<and>
        length ps = (d + length (kept mp cs)) div 5 - d div 5"
proof (induction cs arbitrary: i d st)
  case Nil
  show ?case by simp
next
  case (Cons c cs)
  have rest: "\<forall>c \<in> set cs. c \<noteq> [] \<or> 0 < mp" using Cons.prems by simp
  show ?case
  proof (cases "int (length c) < mp")
    case True
    then show ?thesis using Cons.IH [OF rest, of "Suc i" d st] by simp
  next
    case False
    then obtain x0 y0 tl where c: "c = (x0, y0) # tl"
      using Cons.prems by (cases c) auto
    let ?st6 = "tool (Goto x0 y0) (draw_points tl
                  (tool (Color ''blue'') (tool PenDown (tool (Goto x0 y0) (tool PenUp st)))))"
    have st6: "status_log ?st6 = status_log st"
      by (simp add: status_log_simps draw_points_logs)
    show ?thesis
    proof (cases "Suc d mod 5 = 0")
      case True
      from Cons.IH [OF rest, of "Suc i" "Suc d" "update_status (Progress (i + 1) n) ?st6"]
      obtain ps where ps:
        "status_log (snd (draw_loop mp n (Suc i) (Suc d) cs
            (update_status (Progress (i + 1) n) ?st6))) =
           status_log (update_status (Progress (i + 1) n) ?st6) @ ps"
        "progress_totals ps = replicate ((Suc d + length (kept mp cs)) div 5 - Suc d div 5) n"
        "length ps = (Suc d + length (kept mp cs)) div 5 - Suc d div 5"
        by blast
      show ?thesis
        apply (rule exI [of _ "Progress (i + 1) n # ps"])
        using False True ps c st6
          div5_step(1) [of d "Suc (d + length (kept mp cs))"]
        by (simp add: Let_def status_log_simps)
    next
      case nz: False
      from Cons.IH [OF rest, of "Suc i" "Suc d" ?st6]
      obtain ps where ps:
        "status_log (snd (draw_loop mp n (Suc i) (Suc d) cs ?st6)) = status_log ?st6 @ ps"
        "progress_totals ps = replicate ((Suc d + length (kept mp cs)) div 5 - Suc d div 5) n"
        "length ps = (Suc d + length (kept mp cs)) div 5 - Suc d div 5"
        by blast
      show ?thesis
        apply (rule exI [of _ ps])
        using False nz ps c st6
          div5_step(2) [of d "Suc (d + length (kept mp cs))"]
        by (simp add: Let_def)
    qed
  qed
qed


lemma pen_paths_gotos:
  "pen_paths True pos cur (map (\<lambda>(x, y). Goto x y) ps @ rest) =
     pen_paths True (last (pos # ps)) (cur @ ps) rest"
  by (induction ps arbitrary: pos cur) auto

lemma pen_paths_contour_cmds:
  "c \<noteq> [] \<Longrightarrow>
   pen_paths down pos cur (contour_cmds c @ rest) =
     (if down \<and> 2 \<le> length cur then [cur] else []) @ pen_paths True (hd c) (c @ [hd c]) rest"
  by (cases c) (auto simp: pen_paths_gotos)

lemma pen_paths_contours:
  "\<forall>c \<in> set cs. c \<noteq> [] \<Longrightarrow>
   pen_paths down pos cur (concat (map contour_cmds cs) @ [PenUp, Goto 0 0, Color ''red'']) =
     (if down \<and> 2 \<le> length cur then [cur] else []) @ map (\<lambda>c. c @ [hd c]) cs"
proof (induction cs arbitrary: down pos cur)
  case Nil
  show ?case by simp
next
  case (Cons c cs)
  have c: "c \<noteq> []" and rest: "\<forall>c \<in> set cs. c \<noteq> []"
    using Cons.prems by simp_all
  have "pen_paths down pos cur
          (concat (map contour_cmds (c # cs)) @ [PenUp, Goto 0 0, Color ''red'']) =
        pen_paths down pos cur
          (contour_cmds c @ (concat (map contour_cmds cs) @ [PenUp, Goto 0 0, Color ''red'']))"
    by simp
  also have "\<dots> = (if down \<and> 2 \<le> length cur then [cur] else []) @
      pen_paths True (hd c) (c @ [hd c])
        (concat (map contour_cmds cs) @ [PenUp, Goto 0 0, Color ''red''])"
    by (rule pen_paths_contour_cmds [OF c])
  also have "pen_paths True (hd c) (c @ [hd c])
        (concat (map contour_cmds cs) @ [PenUp, Goto 0 0, Color ''red'']) =
      (c @ [hd c]) # map (\<lambda>c. c @ [hd c]) cs"
    using Cons.IH [OF rest, of True "hd c" "c @ [hd c]"] c
    by (cases c) simp_all
  finally show ?case by simp
qed

lemma kept_nonempty:
  "\<forall>c \<in> set cs. c \<noteq> [] \<or> 0 < mp \<Longrightarrow> \<forall>c \<in> set (kept mp cs). c \<noteq> []"
  by auto

lemma draw_toolpath_ok:
  assumes "\<forall>c \<in> set cs. c \<noteq> [] \<or> 0 < mp"
  shows "fst (draw_toolpath cs mp st) = Inr ()"
    and "issued st (snd (draw_toolpath cs mp st)) =
           concat (map contour_cmds (kept mp cs)) @ [PenUp, Goto 0 0, Color ''red'']"
proof -
  let ?st1 = "update_status Running st"
  obtain r st2 where l: "draw_loop mp (length cs) 0 0 cs ?st1 = (r, st2)"
    by (cases "draw_loop mp (length cs) 0 0 cs ?st1")
  have r: "r = Inr (length (kept mp cs))"
    using draw_loop_fst [OF assms, of "length cs" 0 0 ?st1] l by simp
  have t: "tool_log st2 = tool_log st @ concat (map contour_cmds (kept mp cs))"
    using draw_loop_tool_log [OF assms, of "length cs" 0 0 ?st1] l
    by (simp add: tool_log_simps)
  show "fst (draw_toolpath cs mp st) = Inr ()"
    by (simp add: draw_toolpath_def Let_def l r)
  show "issued st (snd (draw_toolpath cs mp st)) =
           concat (map contour_cmds (kept mp cs)) @ [PenUp, Goto 0 0, Color ''red'']"
    by (simp add: draw_toolpath_def Let_def l r issued_def tool_log_simps t)
qed

lemma draw_toolpath_paths:
  assumes "\<forall>c \<in> set cs. c \<noteq> [] \<or> 0 < mp"
  shows "drawn_paths down pos (issued st (snd (draw_toolpath cs mp st))) =
           map (\<lambda>c. c @ [hd c]) (kept mp cs)"
  unfolding draw_toolpath_ok(2) [OF assms] drawn_paths_def
  using pen_paths_contours [OF kept_nonempty [OF assms], of down pos "[pos]"]
  by simp

text \<open>
  Claim C3. \<open>draw_toolpath\<close> draws a contour if and only if it has at least \<open>min_points\<close>
  points: the polylines it draws, each without its closing point, are exactly the contours
  with at least \<open>min_points\<close> points, each once and in the order of the input. When every
  contour is shorter than \<open>min_points\<close> (as with \<open>min_points = 1000\<close> and contours of at
  most 200 points) nothing is drawn. A contour with no point at all is read by
  \<open>contour[0]\<close> only when \<open>min_points\<close> is zero or negative, which the hypothesis leaves out.
\<close>

theorem draw_toolpath_filter:
  assumes "\<forall>c \<in> set contours. c \<noteq> [] \<or> 0 < min_points"
  shows "fst (draw_toolpath contours min_points st) = Inr ()
    \<and> map butlast (drawn_paths down pos (issued st (snd (draw_toolpath contours min_points st))))
        = filter (\<lambda>c. min_points \<le> int (length c)) contours
    \<and> length (drawn_paths down pos (issued st (snd (draw_toolpath contours min_points st))))
        = length (filter (\<lambda>c. min_points \<le> int (length c)) contours)
    \<and> ((\<forall>c \<in> set contours. int (length c) < min_points) \<longrightarrow>
          drawn_paths down pos (issued st (snd (draw_toolpath contours min_points st))) = [])"
proof (intro conjI impI)
  show "fst (draw_toolpath contours min_points st) = Inr ()"
    by (rule draw_toolpath_ok(1) [OF assms])
  show "map butlast
         (drawn_paths down pos (issued st (snd (draw_toolpath contours min_points st))))
        = filter (\<lambda>c. min_points \<le> int (length c)) contours"
    unfolding draw_toolpath_paths [OF assms] by (simp add: comp_def)
  show "length (drawn_paths down pos (issued st (snd (draw_toolpath contours min_points st))))
        = length (filter (\<lambda>c. min_points \<le> int (length c)) contours)"
    unfolding draw_toolpath_paths [OF assms] by simp
  assume "\<forall>c \<in> set contours. int (length c) < min_points"
  then have "filter (\<lambda>c. min_points \<le> int (length c)) contours = []"
    by (auto simp: filter_empty_conv)
  then show "drawn_paths down pos (issued st (snd (draw_toolpath contours min_points st))) = []"
    unfolding draw_toolpath_paths [OF assms] by simp
qed


theorem draw_toolpath_filter_witness:
  "fst (draw_toolpath
         [[(0, 0), (1, 0), (2, 0), (3, 0), (4, 0), (4, 1), (3, 1), (2, 1), (1, 1), (0, 1)],
          [(5, 5), (6, 5), (6, 6)],
          [(9, 0), (9, 1), (9, 2), (9, 3), (9, 4), (9, 5), (9, 6), (9, 7), (9, 8), (9, 9), (8, 9)]]
         10 cnc_init) = Inr ()
   \<and> map butlast (drawn_paths True (0, 0) (issued cnc_init (snd (draw_toolpath
         [[(0, 0), (1, 0), (2, 0), (3, 0), (4, 0), (4, 1), (3, 1), (2, 1), (1, 1), (0, 1)],
          [(5, 5), (6, 5), (6, 6)],
          [(9, 0), (9, 1), (9, 2), (9, 3), (9, 4), (9, 5), (9, 6), (9, 7), (9, 8), (9, 9), (8, 9)]]
         10 cnc_init)))) =
        [[(0, 0), (1, 0), (2, 0), (3, 0), (4, 0), (4, 1), (3, 1), (2, 1), (1, 1), (0, 1)],
         [(9, 0), (9, 1), (9, 2), (9, 3), (9, 4), (9, 5), (9, 6), (9, 7), (9, 8), (9, 9), (8, 9)]]
   \<and> drawn_paths True (0, 0) (issued cnc_init (snd (draw_toolpath
         [[(5, 5), (6, 5), (6, 6)], [(0, 0), (1, 0)]] 1000 cnc_init))) = []"
  using draw_toolpath_filter [where contours =
         "[[(0, 0), (1, 0), (2, 0), (3, 0), (4, 0), (4, 1), (3, 1), (2, 1), (1, 1), (0, 1)],
          [(5, 5), (6, 5), (6, 6)],
          [(9, 0), (9, 1), (9, 2), (9, 3), (9, 4), (9, 5), (9, 6), (9, 7), (9, 8), (9, 9), (8, 9)]]"
         and min_points = 10 and st = cnc_init and down = True and pos = "(0, 0)"]
    draw_toolpath_filter [where contours = "[[(5, 5), (6, 5), (6, 6)], [(0, 0), (1, 0)]]"
         and min_points = 1000 and st = cnc_init and down = True and pos = "(0, 0)"]
  by simp

text \<open>
  Claim C10. Every contour that passes the \<open>min_points\<close> test is drawn as a closed
  loop: the polyline drawn for it, with the pen down, is the contour followed by its
  first point, whether or not the contour itself ends where it starts.
\<close>

theorem draw_toolpath_closes:
  assumes "\<forall>c \<in> set contours. c \<noteq> [] \<or> 0 < min_points"
  shows "drawn_paths down pos (issued st (snd (draw_toolpath contours min_points st)))
           = map (\<lambda>c. c @ [hd c]) (filter (\<lambda>c. min_points \<le> int (length c)) contours)
    \<and> (\<forall>p \<in> set (drawn_paths down pos (issued st (snd (draw_toolpath contours min_points st)))).
          2 \<le> length p \<and> last p = hd p)"
proof -
  have ne: "\<forall>c \<in> set (kept min_points contours). c \<noteq> []"
    by (rule kept_nonempty [OF assms])
  have "\<forall>p \<in> set (map (\<lambda>c. c @ [hd c]) (kept min_points contours)). 2 \<le> length p \<and> last p = hd p"
  proof
    fix p assume "p \<in> set (map (\<lambda>c. c @ [hd c]) (kept min_points contours))"
    then obtain c where c: "c \<in> set (kept min_points contours)" and p: "p = c @ [hd c]"
      by auto
    from c ne have "c \<noteq> []" by blast
    then show "2 \<le> length p \<and> last p = hd p"
      unfolding p by (cases c) simp_all
  qed
  then show ?thesis
    unfolding draw_toolpath_paths [OF assms] by simp
qed


theorem draw_toolpath_closes_witness:
  "drawn_paths True (0, 0) (issued cnc_init (snd (draw_toolpath
      [[(0, 0), (4, 0), (4, 3)], [(7, 7)]] 3 cnc_init))) = [[(0, 0), (4, 0), (4, 3), (0, 0)]]
   \<and> last [(0, 0), (4, 0), (4, 3), (0 :: real, 0 :: real)] = hd [(0, 0), (4, 0), (4, 3), (0, 0)]"
  using draw_toolpath_closes [where contours = "[[(0, 0), (4, 0), (4, 3)], [(7, 7)]]"
         and min_points = 3 and st = cnc_init and down = True and pos = "(0, 0)"]
  by simp

lemma draw_toolpath_reported:
  assumes "\<forall>c \<in> set cs. c \<noteq> [] \<or> 0 < mp"
  shows "\<exists>ps. reported st (snd (draw_toolpath cs mp st)) =
                Running # ps @ [Complete (length (kept mp cs))] \<and>
              length ps = length (kept mp cs) div 5 \<and>
              progress_totals ps = replicate (length (kept mp cs) div 5) (length cs)"
proof -
  let ?st1 = "update_status Running st"
  obtain r st2 where l: "draw_loop mp (length cs) 0 0 cs ?st1 = (r, st2)"
    by (cases "draw_loop mp (length cs) 0 0 cs ?st1")
  have r: "r = Inr (length (kept mp cs))"
    using draw_loop_fst [OF assms, of "length cs" 0 0 ?st1] l by simp
  obtain ps where ps: "status_log st2 = status_log ?st1 @ ps"
      "progress_totals ps = replicate (length (kept mp cs) div 5) (length cs)"
      "length ps = length (kept mp cs) div 5"
  proof -
    from draw_loop_status [OF assms, of "length cs" 0 0 ?st1]
    obtain qs where "status_log (snd (draw_loop mp (length cs) 0 0 cs ?st1)) = status_log ?st1 @ qs"
      "progress_totals qs = replicate ((0 + length (kept mp cs)) div 5 - 0 div 5) (length cs)"
      "length qs = (0 + length (kept mp cs)) div 5 - 0 div 5"
      by blast
    then have "status_log st2 = status_log ?st1 @ qs"
      "progress_totals qs = replicate (length (kept mp cs) div 5) (length cs)"
      "length qs = length (kept mp cs) div 5"
      by (simp_all add: l)
    then show ?thesis by (rule that)
  qed
  have "reported st (snd (draw_toolpath cs mp st)) =
          Running # ps @ [Complete (length (kept mp cs))]"
    by (simp add: draw_toolpath_def Let_def l r reported_def status_log_simps ps(1))
  with ps show ?thesis by blast
qed



text \<open>
  Claim C8, as the code has it. \<open>draw_toolpath\<close> returns no value; the two counts reach
  the display only. Its messages are \<open>Running\<close>, then one progress message each time the
  number drawn reaches a multiple of five, each showing the total number of contours, and
  last \<open>Complete d\<close>, where \<open>d\<close> is the number of contours with at least \<open>min_points\<close>
  points. So the number drawn is always reported, and the total only when at least five
  contours were drawn.
\<close>

theorem draw_toolpath_counts:
  assumes "\<forall>c \<in> set contours. c \<noteq> [] \<or> 0 < min_points"
  shows "fst (draw_toolpath contours min_points st) = Inr ()
    \<and> (\<exists>ps. reported st (snd (draw_toolpath contours min_points st)) =
               Running # ps @
                 [Complete (length (filter (\<lambda>c. min_points \<le> int (length c)) contours))] \<and>
             length ps =
               length (filter (\<lambda>c. min_points \<le> int (length c)) contours) div 5 \<and>
             progress_totals ps =
               replicate (length (filter (\<lambda>c. min_points \<le> int (length c)) contours) div 5)
                 (length contours))"
  using draw_toolpath_ok(1) [OF assms] draw_toolpath_reported [OF assms] by blast

theorem draw_toolpath_counts_witness:
  "fst (draw_toolpath [[(0, 0)], [(1, 0)], [], [(2, 0)], [(3, 0)], [(4, 0)], [(5, 0)]] 1 cnc_init)
     = Inr ()
   \<and> reported cnc_init (snd (draw_toolpath
        [[(0, 0)], [(1, 0)], [], [(2, 0)], [(3, 0)], [(4, 0)], [(5, 0)]] 1 cnc_init))
     = [Running, Progress 6 7, Complete 6]"
proof -
  have run: "reported cnc_init (snd (draw_toolpath
        [[(0, 0)], [(1, 0)], [], [(2, 0)], [(3, 0)], [(4, 0)], [(5, 0)]] 1 cnc_init))
     = [Running, Progress 6 7, Complete 6]"
    by (simp add: draw_toolpath_def Let_def reported_def status_log_simps draw_points_logs
          cnc_init_def)
  have "fst (draw_toolpath [[(0, 0)], [(1, 0)], [], [(2, 0)], [(3, 0)], [(4, 0)], [(5, 0)]] 1 cnc_init)
     = Inr ()"
    using draw_toolpath_counts
      [where contours = "[[(0, 0)], [(1, 0)], [], [(2, 0)], [(3, 0)], [(4, 0)], [(5, 0)]]"
         and min_points = 1 and st = cnc_init]
    by simp
  with run show ?thesis by simp
qed

text \<open>
  Two contours, both shorter than ten points: the call returns \<open>()\<close> and reports
  \<open>Running\<close> and \<open>Complete 0\<close>; the total, two, is in no message.
\<close>

theorem draw_toolpath_total_unreported:
  "fst (draw_toolpath [[(0, 0)], [(1, 1), (2, 2)]] 10 cnc_init) = Inr ()
   \<and> reported cnc_init (snd (draw_toolpath [[(0, 0)], [(1, 1), (2, 2)]] 10 cnc_init))
       = [Running, Complete 0]
   \<and> progress_totals
       (reported cnc_init (snd (draw_toolpath [[(0, 0)], [(1, 1), (2, 2)]] 10 cnc_init))) = []"
  by (simp add: draw_toolpath_def Let_def reported_def status_log_simps cnc_init_def)

section \<open>Properties of \<open>generate_from_image\<close>\<close>

lemma edge_detection_None:
  "imread cv p = None \<Longrightarrow>
   edge_detection cv p t1 t2 st =
     (Inl (ValueError ''Could not load image''), update_status Loading st)"
  by (simp add: edge_detection_def)

lemma edge_detection_Some:
  "imread cv p = Some img \<Longrightarrow>
   edge_detection cv p t1 t2 st =
     (Inr (Canny cv (GaussianBlur cv (cvtColor cv img)) t1 t2, shape cv img),
      update_status Loading st)"
  by (simp add: edge_detection_def)

lemma generate_from_image_returns:
  "fst (generate_from_image cv p cs st) = Inr ()"
  by (simp add: generate_from_image_def on_exception_def
        split: prod.splits sum.splits)

lemma draw_toolpath_printed:
  "printed (snd (draw_toolpath cs mp st)) = printed st"
proof -
  obtain r st2 where l: "draw_loop mp (length cs) 0 0 cs (update_status Running st) = (r, st2)"
    by (cases "draw_loop mp (length cs) 0 0 cs (update_status Running st)")
  have "printed st2 = printed st"
    using draw_loop_printed [of mp "length cs" 0 0 cs "update_status Running st"] l
    by (simp add: printed_simps)
  then show ?thesis
    by (cases r) (simp_all add: draw_toolpath_def Let_def l printed_simps)
qed

lemma generate_from_image_loaded:
  assumes "imread cv p = Some img" and "shape cv img = h # w # rest" and "max h w \<noteq> 0"
  shows "printed (snd (generate_from_image cv p cs st)) = printed st"
    and "last (status_log (snd (generate_from_image cv p cs st))) = Finished"
proof -
  let ?edges = "Canny cv (GaussianBlur cv (cvtColor cv img)) 50 150"
  let ?st2 = "update_status Extracting (update_status Loading st)"
  let ?contours = "sorted_reverse contourArea (findContours cv ?edges)"
  obtain scaled where sc: "scale_coordinates ?contours (h # w # rest) cs = Inr scaled"
    using assms(3) by simp
  obtain r3 st3 where d: "draw_toolpath scaled 10 ?st2 = (r3, st3)"
    by (cases "draw_toolpath scaled 10 ?st2")
  have "\<forall>c \<in> set scaled. c \<noteq> [] \<or> (0 :: int) < 10"
    by simp
  from draw_toolpath_ok(1) [OF this, of ?st2] have r3: "r3 = Inr ()"
    by (simp add: d)
  have p3: "printed st3 = printed st"
    using draw_toolpath_printed [of scaled 10 ?st2] by (simp add: d printed_simps)
  have g: "generate_from_image cv p cs st = (Inr (), update_status Finished st3)"
    by (simp add: generate_from_image_def edge_detection_Some [OF assms(1)] assms(2)
          extract_contours_def sc d r3 del: scale_coordinates.simps)
  show "printed (snd (generate_from_image cv p cs st)) = printed st"
    unfolding g by (simp add: printed_simps p3)
  show "last (status_log (snd (generate_from_image cv p cs st))) = Finished"
    unfolding g by (simp add: status_log_simps)
qed

text \<open>
  Claim C5, as the code has it. \<open>edge_detection\<close> raises exactly when \<open>cv2.imread\<close>
  returns \<open>None\<close>, and what it raises is \<open>ValueError("Could not load image")\<close>. No later
  stage runs then: the tool receives no command and the only messages are \<open>Loading\<close> and
  the error text. \<open>generate_from_image\<close> does not pass the exception on: its handler shows
  and prints it, and the call returns normally, as it does on every input. For an image
  that loads, with a shape whose larger dimension is not zero, no exception of any kind
  reaches the handler: nothing is printed and the last message is \<open>Finished\<close>.
\<close>

theorem load_error_reported:
  "((\<exists>e. fst (edge_detection cv img_path t_low t_high st) = Inl e)
       \<longleftrightarrow> imread cv img_path = None)
   \<and> (imread cv img_path = None \<longrightarrow>
        fst (edge_detection cv img_path t_low t_high st) =
          Inl (ValueError ''Could not load image'')
        \<and> generate_from_image cv img_path canvas_size st =
            (Inr (), print_error (ValueError ''Could not load image'')
                       (update_status (ErrorMsg (ValueError ''Could not load image''))
                         (update_status Loading st)))
        \<and> issued st (snd (generate_from_image cv img_path canvas_size st)) = []
        \<and> reported st (snd (generate_from_image cv img_path canvas_size st)) =
            [Loading, ErrorMsg (ValueError ''Could not load image'')])
   \<and> fst (generate_from_image cv img_path canvas_size st) = Inr ()
   \<and> (imread cv img_path = Some img \<and> shape cv img = h # w # rest \<and> max h w \<noteq> 0 \<longrightarrow>
        printed (snd (generate_from_image cv img_path canvas_size st)) = printed st
        \<and> last (status_log (snd (generate_from_image cv img_path canvas_size st))) = Finished)"
proof (intro conjI impI)
  show "(\<exists>e. fst (edge_detection cv img_path t_low t_high st) = Inl e)
          \<longleftrightarrow> imread cv img_path = None"
    by (cases "imread cv img_path") (simp_all add: edge_detection_None edge_detection_Some)
  show "fst (generate_from_image cv img_path canvas_size st) = Inr ()"
    by (rule generate_from_image_returns)
next
  assume n: "imread cv img_path = None"
  show "fst (edge_detection cv img_path t_low t_high st) =
          Inl (ValueError ''Could not load image'')"
    by (simp add: edge_detection_None [OF n])
  show g: "generate_from_image cv img_path canvas_size st =
            (Inr (), print_error (ValueError ''Could not load image'')
                       (update_status (ErrorMsg (ValueError ''Could not load image''))
                         (update_status Loading st)))"
    by (simp add: generate_from_image_def edge_detection_None [OF n] on_exception_def)
  show "issued st (snd (generate_from_image cv img_path canvas_size st)) = []"
    unfolding g by (simp add: issued_def tool_log_simps)
  show "reported st (snd (generate_from_image cv img_path canvas_size st)) =
            [Loading, ErrorMsg (ValueError ''Could not load image'')]"
    unfolding g by (simp add: reported_def status_log_simps)
next
  assume "imread cv img_path = Some img \<and> shape cv img = h # w # rest \<and> max h w \<noteq> 0"
  then have a: "imread cv img_path = Some img" "shape cv img = h # w # rest" "max h w \<noteq> 0"
    by simp_all
  show "printed (snd (generate_from_image cv img_path canvas_size st)) = printed st"
    by (rule generate_from_image_loaded(1) [OF a])
  show "last (status_log (snd (generate_from_image cv img_path canvas_size st))) = Finished"
    by (rule generate_from_image_loaded(2) [OF a])
qed

theorem load_error_reported_witness:
  "imread unreadable_cv ''missing.png'' = None
   \<and> fst (edge_detection unreadable_cv ''missing.png'' 50 150 cnc_init) =
       Inl (ValueError ''Could not load image'')
   \<and> issued cnc_init (snd (generate_from_image unreadable_cv ''missing.png'' 600 cnc_init)) = []
   \<and> reported cnc_init (snd (generate_from_image unreadable_cv ''missing.png'' 600 cnc_init)) =
       [Loading, ErrorMsg (ValueError ''Could not load image'')]
   \<and> imread (stub_cv [4, 8, 3] [[0, 255]] [[(1, 1), (2, 2)]]) ''line.png'' = Some ()
   \<and> printed (snd (generate_from_image (stub_cv [4, 8, 3] [[0, 255]] [[(1, 1), (2, 2)]])
        ''line.png'' 600 cnc_init)) = []
   \<and> last (status_log (snd (generate_from_image (stub_cv [4, 8, 3] [[0, 255]] [[(1, 1), (2, 2)]])
        ''line.png'' 600 cnc_init))) = Finished"
proof -
  let ?cv = "stub_cv [4, 8, 3] [[0, 255]] [[(1, 1), (2, 2)]]"
  have n: "imread unreadable_cv ''missing.png'' = None"
    by (simp add: unreadable_cv_def stub_cv_def)
  have a: "imread ?cv ''line.png'' = Some ()" "shape ?cv () = 4 # 8 # [3]" "max (4 :: int) 8 \<noteq> 0"
    by (simp_all add: stub_cv_def)
  have p: "printed cnc_init = []"
    by (simp add: cnc_init_def)
  show ?thesis
    using n a p load_error_reported
      [where cv = unreadable_cv and img_path = "''missing.png''" and t_low = 50
         and t_high = 150 and st = cnc_init and canvas_size = 600]
      load_error_reported
      [where cv = ?cv and img_path = "''line.png''" and st = cnc_init and canvas_size = 600
         and img = "()" and h = 4 and w = 8 and rest = "[3]"]
    by metis
qed

text \<open>
  A file that cannot be loaded: the call returns \<open>()\<close> to its caller, with the error on
  the status line and on standard output.
\<close>

theorem load_error_not_raised:
  "fst (generate_from_image unreadable_cv ''missing.png'' 600 cnc_init) = Inr ()
   \<and> status_log (snd (generate_from_image unreadable_cv ''missing.png'' 600 cnc_init)) =
       [Loading, ErrorMsg (ValueError ''Could not load image'')]
   \<and> printed (snd (generate_from_image unreadable_cv ''missing.png'' 600 cnc_init)) =
       [ValueError ''Could not load image'']"
  by (simp add: generate_from_image_def edge_detection_def unreadable_cv_def stub_cv_def
        on_exception_def status_log_simps printed_simps cnc_init_def)

lemma sorted_reverse_Nil: "sorted_reverse key [] = []"
  by (simp add: sorted_reverse_def)

lemma draw_toolpath_Nil:
  "draw_toolpath [] mp st =
     (Inr (), update_status (Complete 0)
                (tool (Color ''red'') (tool (Goto 0 0) (tool PenUp (update_status Running st)))))"
  by (simp add: draw_toolpath_def)

lemma pixel_all_zero: "all_zero edges \<Longrightarrow> pixel edges p = 0"
proof -
  assume z: "all_zero edges"
  obtain x y where xy: "p = (x, y)" by (cases p)
  show ?thesis
  proof (cases "0 \<le> y \<and> nat y < length edges \<and> 0 \<le> x \<and> nat x < length (edges ! nat y)")
    case True
    then have "edges ! nat y \<in> set edges" and "edges ! nat y ! nat x \<in> set (edges ! nat y)"
      by simp_all
    with z have "edges ! nat y ! nat x = 0"
      by (auto simp: all_zero_def list_all_iff)
    then show ?thesis by (simp add: pixel_def xy)
  next
    case False
    then show ?thesis by (auto simp: pixel_def xy)
  qed
qed

lemma scan_background: "(\<And>p. pixel edges p = 0) \<Longrightarrow> scan edges ps seen = Some []"
  by (induction ps arbitrary: seen) auto

lemma trace_contours_all_zero: "all_zero edges \<Longrightarrow> trace_contours edges = Some []"
  unfolding trace_contours_def by (rule scan_background) (rule pixel_all_zero)

lemma finite_edge_pixels: "finite {p. pixel edges p \<noteq> 0}"
proof -
  let ?n = "sum_list (map length edges)"
  have "{p. pixel edges p \<noteq> 0} \<subseteq> {0 ..< int ?n} \<times> {0 ..< int (length edges)}"
  proof
    fix p assume p: "p \<in> {p. pixel edges p \<noteq> 0}"
    obtain x y where xy: "p = (x, y)" by (cases p)
    from p xy have r: "0 \<le> y" "nat y < length edges" "0 \<le> x" "nat x < length (edges ! nat y)"
      by (auto simp: pixel_def split: if_splits)
    have "length (edges ! nat y) \<in> set (map length edges)"
      using r(2) by simp
    then have "length (edges ! nat y) \<le> ?n"
      by (simp add: member_le_sum_list)
    with r show "p \<in> {0 ..< int ?n} \<times> {0 ..< int (length edges)}"
      unfolding xy by auto
  qed
  then show ?thesis
    by (rule finite_subset) simp
qed

text \<open>
  The work-list loop returns: each step either drops a pixel from the work list or adds
  an edge pixel to \<open>seen\<close>, and the mask has finitely many edge pixels.
\<close>

lemma grow_returns: "\<exists>r. grow edges seen stack region = Some r"
proof (induction "card ({p. pixel edges p \<noteq> 0} - set seen)" arbitrary: seen stack region
    rule: less_induct)
  case less
  show ?case
  proof (induction stack arbitrary: region)
    case Nil
    show ?case by (subst grow.simps) simp
  next
    case (Cons p rest)
    show ?case
    proof (cases "pixel edges p = 0 \<or> p \<in> set seen")
      case True
      then show ?thesis
        using Cons.IH [of region] by (subst grow.simps) simp
    next
      case False
      have "{p. pixel edges p \<noteq> 0} - set (p # seen) \<subset> {p. pixel edges p \<noteq> 0} - set seen"
        using False by auto
      then have "card ({p. pixel edges p \<noteq> 0} - set (p # seen))
                   < card ({p. pixel edges p \<noteq> 0} - set seen)"
        by (intro psubset_card_mono finite_Diff finite_edge_pixels)
      from less.hyps [OF this]
      obtain r where "grow edges (p # seen) (neighbours p @ rest) (region @ [p]) = Some r"
        by blast
      then show ?thesis
        using False by (subst grow.simps) simp
    qed
  qed
qed

lemma scan_returns: "\<exists>contours. scan edges ps seen = Some contours"
proof (induction ps arbitrary: seen)
  case Nil
  show ?case by simp
next
  case (Cons p ps)
  show ?case
  proof (cases "pixel edges p = 0 \<or> p \<in> set seen")
    case True
    then show ?thesis using Cons.IH [of seen] by simp
  next
    case False
    obtain seen' region where g: "grow edges seen [p] [] = Some (seen', region)"
      using grow_returns [of edges seen "[p]" "[]"] by auto
    obtain contours where s: "scan edges ps seen' = Some contours"
      using Cons.IH [of seen'] by blast
    show ?thesis using False g s by simp
  qed
qed

lemma trace_contours_returns: "\<exists>contours. trace_contours edges = Some contours"
  unfolding trace_contours_def by (rule scan_returns)

lemma with_tracer_fields:
  "imread (with_tracer cv) = imread cv"
  "shape (with_tracer cv) = shape cv"
  "cvtColor (with_tracer cv) = cvtColor cv"
  "GaussianBlur (with_tracer cv) = GaussianBlur cv"
  "Canny (with_tracer cv) = Canny cv"
  "findContours (with_tracer cv) = findContours_spec"
  by (simp_all add: with_tracer_def)

text \<open>
  Claim C6, with the tracer of the spec for \<open>cv2.findContours\<close>. The tracer returns on
  every edge map, and \<open>extract_contours\<close> returns its contours sorted. For an image that
  loads, with a shape whose larger dimension is not zero, and whose edge map has no edge
  pixel, the tracer and \<open>extract_contours\<close> return no contour, the run finishes without
  an exception, the tool only returns to the origin with the pen up, so no polyline is
  drawn, and nothing is printed.
\<close>

theorem no_edges_empty_toolpath:
  assumes "imread cv img_path = Some img"
    and "shape cv img = h # w # rest"
    and "max h w \<noteq> 0"
    and "all_zero (Canny cv (GaussianBlur cv (cvtColor cv img)) 50 150)"
  shows "(\<exists>contours. trace_contours any_edges = Some contours
            \<and> fst (extract_contours (with_tracer cv) any_edges st') =
                sorted_reverse contourArea contours)
    \<and> trace_contours (Canny cv (GaussianBlur cv (cvtColor cv img)) 50 150) = Some []
    \<and> fst (extract_contours (with_tracer cv)
             (Canny cv (GaussianBlur cv (cvtColor cv img)) 50 150) st') = []
    \<and> fst (generate_from_image (with_tracer cv) img_path canvas_size st) = Inr ()
    \<and> issued st (snd (generate_from_image (with_tracer cv) img_path canvas_size st)) =
        [PenUp, Goto 0 0, Color ''red'']
    \<and> drawn_paths down pos
         (issued st (snd (generate_from_image (with_tracer cv) img_path canvas_size st))) = []
    \<and> reported st (snd (generate_from_image (with_tracer cv) img_path canvas_size st)) =
        [Loading, Extracting, Running, Complete 0, Finished]
    \<and> printed (snd (generate_from_image (with_tracer cv) img_path canvas_size st)) = printed st"
proof -
  let ?cv = "with_tracer cv"
  let ?edges = "Canny cv (GaussianBlur cv (cvtColor cv img)) 50 150"
  let ?g = "generate_from_image ?cv img_path canvas_size st"
  obtain contours where t: "trace_contours any_edges = Some contours"
    using trace_contours_returns by blast
  have a: "fst (extract_contours ?cv any_edges st') = sorted_reverse contourArea contours"
    by (simp add: extract_contours_def with_tracer_fields findContours_spec_def t)
  have z: "trace_contours ?edges = Some []"
    by (rule trace_contours_all_zero [OF assms(4)])
  have x: "\<And>s. extract_contours ?cv ?edges s = ([], update_status Extracting s)"
    by (simp add: extract_contours_def with_tracer_fields findContours_spec_def z
          sorted_reverse_Nil)
  have e: "edge_detection ?cv img_path 50 150 st =
             (Inr (?edges, h # w # rest), update_status Loading st)"
    using edge_detection_Some [of ?cv img_path img 50 150 st] assms(1,2)
    by (simp add: with_tracer_fields)
  have sc: "scale_coordinates [] (h # w # rest) canvas_size = Inr []"
    using assms(3) by simp
  have g: "?g =
      (Inr (), update_status Finished (update_status (Complete 0)
         (tool (Color ''red'') (tool (Goto 0 0) (tool PenUp (update_status Running
            (update_status Extracting (update_status Loading st))))))))"
    by (simp add: generate_from_image_def e x sc draw_toolpath_Nil
          del: scale_coordinates.simps)
  have i: "issued st (snd ?g) = [PenUp, Goto 0 0, Color ''red'']"
    unfolding g by (simp add: issued_def tool_log_simps)
  have d: "drawn_paths down pos [PenUp, Goto 0 0, Color ''red''] = []"
    by (simp add: drawn_paths_def)
  have r: "reported st (snd ?g) = [Loading, Extracting, Running, Complete 0, Finished]"
    unfolding g by (simp add: reported_def status_log_simps)
  have p: "printed (snd ?g) = printed st"
    unfolding g by (simp add: printed_simps)
  have f: "fst ?g = Inr ()"
    unfolding g by simp
  from t a have "\<exists>contours. trace_contours any_edges = Some contours
            \<and> fst (extract_contours ?cv any_edges st') = sorted_reverse contourArea contours"
    by blast
  then show ?thesis
    unfolding i using z x f d r p by simp
qed

theorem no_edges_empty_toolpath_witness:
  "imread (stub_cv [100, 100, 3] (replicate 100 (replicate 100 0)) []) ''white.png'' = Some ()
   \<and> all_zero (replicate 100 (replicate 100 0))
   \<and> trace_contours [[0, 255, 0], [0, 255, 255], [0, 0, 0], [255, 0, 0]] =
       Some [[(1, 0), (2, 1), (1, 1)], [(0, 3)]]
   \<and> trace_contours (replicate 100 (replicate 100 0)) = Some []
   \<and> fst (generate_from_image
        (with_tracer (stub_cv [100, 100, 3] (replicate 100 (replicate 100 0)) []))
        ''white.png'' 600 cnc_init) = Inr ()
   \<and> drawn_paths True (0, 0) (issued cnc_init (snd (generate_from_image
        (with_tracer (stub_cv [100, 100, 3] (replicate 100 (replicate 100 0)) []))
        ''white.png'' 600 cnc_init))) = []
   \<and> reported cnc_init (snd (generate_from_image
        (with_tracer (stub_cv [100, 100, 3] (replicate 100 (replicate 100 0)) []))
        ''white.png'' 600 cnc_init)) = [Loading, Extracting, Running, Complete 0, Finished]"
proof -
  let ?cv = "stub_cv [100, 100, 3] (replicate 100 (replicate 100 0)) []"
  have z: "all_zero (replicate 100 (replicate 100 0))"
    by (simp add: all_zero_def list_all_iff)
  have t: "trace_contours [[0, 255, 0], [0, 255, 255], [0, 0, 0], [255, 0, 0]] =
       Some [[(1, 0), (2, 1), (1, 1)], [(0, 3)]]"
    by code_simp
  have a1: "imread ?cv ''white.png'' = Some ()"
    by (simp add: stub_cv_def)
  have a2: "shape ?cv () = 100 # 100 # [3]"
    by (simp add: stub_cv_def)
  have a3: "max (100 :: int) 100 \<noteq> 0"
    by simp
  have a4: "all_zero (Canny ?cv (GaussianBlur ?cv (cvtColor ?cv ())) 50 150)"
    using z by (simp add: stub_cv_def)
  have c: "Canny ?cv (GaussianBlur ?cv (cvtColor ?cv ())) 50 150 = replicate 100 (replicate 100 0)"
    by (simp add: stub_cv_def)
  note n = no_edges_empty_toolpath [OF a1 a2 a3 a4, where st = cnc_init and canvas_size = 600
      and down = True and pos = "(0, 0)"]
  from n have "trace_contours (replicate 100 (replicate 100 0)) = Some []"
    unfolding c by blast
  with n show ?thesis using z t a1 by blast
qed

end
